theory Spec2Isabelle
  imports Complex_Main
begin

section \<open>Data model (src/models.py, src/config.py)\<close>

text \<open>
  Python values are modelled as follows. A \<open>datetime\<close> is an instant counted in seconds
  and a \<open>date\<close> a day number; \<open>date_of\<close> is the calendar day of an instant (SQLite's
  \<open>date(created_at)\<close>). All instants are taken to be mutually comparable. A \<open>float\<close>
  that is only stored and copied (the price, the sleep durations) is a \<open>real\<close>. A \<open>str\<close>
  is a list of code points below 256. \<open>X | None\<close> is \<open>X option\<close>.
\<close>

type_synonym datetime = int
type_synonym date = int

definition date_of :: "datetime \<Rightarrow> date" where
  "date_of t = t div 86400"

datatype IntentionType = INTENTION | APPOINTMENT

datatype AppMode = SIMPLE | EXTENDED

record BufferedIntention =
  id' :: "int option"
  email :: string
  first_name :: "string option"
  last_name :: "string option"
  phone :: "string option"
  intention_type :: IntentionType
  salon_id :: "string option"
  salon_name :: "string option"
  stylist_id :: "string option"
  stylist_name :: "string option"
  treatment :: "string option"
  price :: "real option"
  appointment_date :: "datetime option"
  campaign_source :: "string option"
  raw_payload :: "string option"
  created_at :: "datetime option"
  processed :: bool

record ProcessedContact =
  email :: string
  first_name :: "string option"
  last_name :: "string option"
  phone :: "string option"
  event_name :: string
  salon_id :: "string option"
  salon_name :: "string option"
  stylist_id :: "string option"
  stylist_name :: "string option"
  treatment :: "string option"
  price :: "real option"
  appointment_date :: "datetime option"
  campaign_source :: "string option"
  is_new_client :: "bool option"
  intention_count :: int
  appointment_count :: int

text \<open>
  The exceptions that the modelled code can raise. Every one of them is a subclass of
  Python's \<open>Exception\<close>, which is what \<open>is_Exception\<close> records.
\<close>

datatype exn =
  TypeError
  | ValueError
  | AttributeError
  | UnicodeEncodeError
  | HTTPStatusError nat
  | RequestError
  | OperationalError

fun is_Exception :: "exn \<Rightarrow> bool" where
  "is_Exception TypeError = True"
| "is_Exception ValueError = True"
| "is_Exception AttributeError = True"
| "is_Exception UnicodeEncodeError = True"
| "is_Exception (HTTPStatusError s) = True"
| "is_Exception RequestError = True"
| "is_Exception OperationalError = True"

section \<open>Python built-ins used by the aggregator\<close>

text \<open>Truthiness of an optional string: \<open>None\<close> and \<open>""\<close> are falsy.\<close>

definition truthy :: "string option \<Rightarrow> bool" where
  "truthy v = (case v of None \<Rightarrow> False | Some s \<Rightarrow> s \<noteq> [])"

text \<open>\<open>str.lower\<close> and \<open>str.strip\<close> on code points below 256.\<close>

definition is_space :: "char \<Rightarrow> bool" where
  "is_space c = ((of_char c :: nat) \<in> {9, 10, 11, 12, 13, 28, 29, 30, 31, 32, 133, 160})"

definition lower_char :: "char \<Rightarrow> char" where
  "lower_char c =
     (let n = (of_char c :: nat)
      in if (65 \<le> n \<and> n \<le> 90) \<or> (192 \<le> n \<and> n \<le> 222 \<and> n \<noteq> 215)
         then char_of (n + 32) else c)"

definition lower :: "string \<Rightarrow> string" where
  "lower s = map lower_char s"

definition strip :: "string \<Rightarrow> string" where
  "strip s = rev (dropWhile is_space (rev (dropWhile is_space s)))"

text \<open>
  \<open>max(xs, key=f)\<close> for keys that are instants or \<open>None\<close>. CPython keeps the first item
  and replaces it only by an item whose key compares strictly greater, so of several
  maximal items the first one met is returned. Comparing with \<open>None\<close> raises
  \<open>TypeError\<close>; a single item is never compared; the empty sequence raises \<open>ValueError\<close>.
\<close>

fun max_loop :: "('a \<Rightarrow> datetime option) \<Rightarrow> 'a \<Rightarrow> datetime option \<Rightarrow> 'a list \<Rightarrow> exn + 'a" where
  "max_loop key maxitem maxval [] = Inr maxitem"
| "max_loop key maxitem maxval (item # rest) =
     (case (key item, maxval) of
        (Some v, Some m) \<Rightarrow>
          if v > m then max_loop key item (Some v) rest
          else max_loop key maxitem maxval rest
      | _ \<Rightarrow> Inl TypeError)"

definition py_max :: "'a list \<Rightarrow> ('a \<Rightarrow> datetime option) \<Rightarrow> exn + 'a" where
  "py_max xs key =
     (case xs of [] \<Rightarrow> Inl ValueError | x # rest \<Rightarrow> max_loop key x (key x) rest)"

section \<open>Aggregator (src/processor.py)\<close>

text \<open>
  \<open>_first_non_empty\<close>: scan \<open>reversed(records)\<close> and return the first truthy value of
  the field. The field name passed to \<open>getattr\<close> is modelled by the field's selector.
\<close>

fun scan_fields :: "BufferedIntention list \<Rightarrow> (BufferedIntention \<Rightarrow> string option) \<Rightarrow> string option" where
  "scan_fields [] field = None"
| "scan_fields (record # rest) field =
     (let value = field record in if truthy value then value else scan_fields rest field)"

definition first_non_empty :: "BufferedIntention list \<Rightarrow> (BufferedIntention \<Rightarrow> string option) \<Rightarrow> string option" where
  "first_non_empty records field = scan_fields (rev records) field"

text \<open>
  \<open>by_email\<close> is a \<open>defaultdict(list)\<close>; a Python dict iterates in insertion order, so it
  is an association list with distinct keys in order of first insertion.
  \<open>dict_append d k r\<close> is \<open>d[k].append(r)\<close>.
\<close>

type_synonym by_email = "(string \<times> BufferedIntention list) list"

fun dict_append :: "by_email \<Rightarrow> string \<Rightarrow> BufferedIntention \<Rightarrow> by_email" where
  "dict_append [] k r = [(k, [r])]"
| "dict_append ((k', rs) # d) k r =
     (if k' = k then (k', rs @ [r]) # d else (k', rs) # dict_append d k r)"

definition normalize_email :: "string \<Rightarrow> string" where
  "normalize_email e = strip (lower e)"

fun group_by_email :: "BufferedIntention list \<Rightarrow> by_email \<Rightarrow> by_email" where
  "group_by_email [] d = d"
| "group_by_email (intention # rest) d =
     group_by_email rest
       (if BufferedIntention.email intention \<noteq> []
        then dict_append d (normalize_email (BufferedIntention.email intention)) intention
        else d)"

text \<open>The key of line 46: \<open>r.created_at or r.appointment_date or r.created_at\<close>.\<close>

definition latest_key :: "BufferedIntention \<Rightarrow> datetime option" where
  "latest_key r =
     (case BufferedIntention.created_at r of
        Some t \<Rightarrow> Some t
      | None \<Rightarrow> (case BufferedIntention.appointment_date r of
                   Some t \<Rightarrow> Some t
                 | None \<Rightarrow> BufferedIntention.created_at r))"

text \<open>The body of the loop over \<open>by_email.items()\<close> (lines 36 to 68).\<close>

definition build_contact :: "string \<Rightarrow> BufferedIntention list \<Rightarrow> exn + ProcessedContact" where
  "build_contact email' records =
     (let intention_count' =
            int (length [r \<leftarrow> records. BufferedIntention.intention_type r = INTENTION]);
          appointment_count' =
            int (length [r \<leftarrow> records. BufferedIntention.intention_type r = APPOINTMENT]);
          event_name' =
            (if appointment_count' > 0 then ''appointmentMade'' else ''appointmentIntention'')
      in case py_max records latest_key of
           Inl e \<Rightarrow> Inl e
         | Inr latest \<Rightarrow>
             (let appointments =
                    [r \<leftarrow> records. BufferedIntention.intention_type r = APPOINTMENT];
                  detail_record = (if appointments \<noteq> [] then last appointments else latest)
              in Inr \<lparr> ProcessedContact.email = email',
                       first_name = first_non_empty records BufferedIntention.first_name,
                       last_name = first_non_empty records BufferedIntention.last_name,
                       phone = first_non_empty records BufferedIntention.phone,
                       event_name = event_name',
                       salon_id = BufferedIntention.salon_id detail_record,
                       salon_name = BufferedIntention.salon_name detail_record,
                       stylist_id = BufferedIntention.stylist_id detail_record,
                       stylist_name = BufferedIntention.stylist_name detail_record,
                       treatment = BufferedIntention.treatment detail_record,
                       price = BufferedIntention.price detail_record,
                       appointment_date = BufferedIntention.appointment_date detail_record,
                       campaign_source = first_non_empty records BufferedIntention.campaign_source,
                       is_new_client = None,
                       intention_count = intention_count',
                       appointment_count = appointment_count' \<rparr>))"

fun contacts_loop :: "by_email \<Rightarrow> ProcessedContact list \<Rightarrow> exn + ProcessedContact list" where
  "contacts_loop [] contacts = Inr contacts"
| "contacts_loop ((email', records) # items) contacts =
     (case build_contact email' records of
        Inl e \<Rightarrow> Inl e
      | Inr contact \<Rightarrow> contacts_loop items (contacts @ [contact]))"

definition aggregate_intentions :: "BufferedIntention list \<Rightarrow> exn + ProcessedContact list" where
  "aggregate_intentions intentions =
     (if intentions = [] then Inr []
      else contacts_loop (group_by_email intentions []) [])"

text \<open>
  The constructor \<open>BufferedIntention(email=..., intention_type=...)\<close> with every other
  field at its declared default.
\<close>

definition new_intention :: "string \<Rightarrow> IntentionType \<Rightarrow> BufferedIntention" where
  "new_intention e ty =
     \<lparr> id' = None, BufferedIntention.email = e, first_name = None, last_name = None,
       phone = None, intention_type = ty, salon_id = None, salon_name = None,
       stylist_id = None, stylist_name = None, treatment = None, price = None,
       appointment_date = None, campaign_source = None, raw_payload = None,
       created_at = None, processed = False \<rparr>"

section \<open>Outbound client (src/klaviyo_client.py)\<close>

text \<open>
  A decoded JSON value; \<open>JNull\<close> is also Python's \<open>None\<close>. An object is the association
  list of a \<open>dict\<close> (keys distinct, as \<open>json.loads\<close> leaves them).
\<close>

datatype json =
  JNull
  | JBool bool
  | JNum real
  | JStr string
  | JArr "json list"
  | JObj "(string \<times> json) list"

fun json_truthy :: "json \<Rightarrow> bool" where
  "json_truthy JNull = False"
| "json_truthy (JBool b) = b"
| "json_truthy (JNum x) = (x \<noteq> 0)"
| "json_truthy (JStr s) = (s \<noteq> [])"
| "json_truthy (JArr xs) = (xs \<noteq> [])"
| "json_truthy (JObj kvs) = (kvs \<noteq> [])"

text \<open>\<open>j.get(k, default)\<close>: only a \<open>dict\<close> has the method.\<close>

definition dict_get :: "json \<Rightarrow> string \<Rightarrow> json \<Rightarrow> exn + json" where
  "dict_get j k dflt =
     (case j of
        JObj kvs \<Rightarrow> Inr (case map_of kvs k of None \<Rightarrow> dflt | Some v \<Rightarrow> v)
      | _ \<Rightarrow> Inl AttributeError)"

text \<open>
  What one HTTP exchange can give the client. \<open>Response\<close> carries the status code, the
  \<open>Retry-After\<close> header as \<open>float\<close> reads it, and the body as \<open>response.json()\<close> decodes it
  (\<open>None\<close> when decoding raises). \<open>ConnectionFailure\<close> is any \<open>httpx.RequestError\<close>.

  \<open>float\<close> reads the header as a finite number of seconds (\<open>Seconds\<close>; a sleep of zero or
  fewer seconds ends at once), as positive infinity (\<open>Forever\<close>: \<open>asyncio.sleep(inf)\<close> never
  ends), or refuses it with \<open>ValueError\<close> (\<open>Unparsable\<close>). Negative infinity is slept for
  no time, as \<open>Seconds 0\<close> is. A NaN is refused with \<open>ValueError\<close> by \<open>asyncio.sleep\<close>
  from Python 3.13 on, as \<open>Unparsable\<close> is, and slept for no time before.
\<close>

datatype retry_after = Absent | Seconds real | Forever | Unparsable

datatype reply =
  Response nat retry_after "json option"
  | ConnectionFailure

text \<open>
  The request as the downstream sees it: the endpoint and the Python values its JSON body
  is built from (lines 85 to 120, 137 to 144 and 158 to 203 build the body and raise
  nothing).
\<close>

datatype request =
  Profile_import AppMode ProcessedContact
  | List_relationships string json
  | Events ProcessedContact
  | Get_lists

text \<open>
  The downstream is a parameter: the reply to a request may depend on the request and on
  how many requests were sent before it. The client's effects are the requests it sends
  and the durations it sleeps. A call that never returns has the value \<open>None\<close>; every
  function of the client and of the orchestrator therefore returns an option.
\<close>

type_synonym downstream = "nat \<Rightarrow> request \<Rightarrow> reply"

record net =
  requests_sent :: nat
  sleeps :: "real list"

record KlaviyoClient =
  api_key :: string
  list_id :: string
  revision :: string
  mode :: AppMode

definition MAX_RETRIES :: nat where
  "MAX_RETRIES = 3"

definition INITIAL_BACKOFF :: real where
  "INITIAL_BACKOFF = 1"

text \<open>\<open>response.raise_for_status()\<close> raises unless the status is 2xx.\<close>

definition is_success :: "nat \<Rightarrow> bool" where
  "is_success status = (200 \<le> status \<and> status < 300)"

text \<open>
  The \<open>headers\<close> property (lines 34 to 40) puts \<open>api_key\<close> and \<open>revision\<close> into header
  values, which httpx encodes as ASCII when it builds the request: a code point above 127
  raises \<open>UnicodeEncodeError\<close> inside the \<open>try\<close> of \<open>_request\<close>, before anything is sent.
\<close>

definition is_ascii :: "string \<Rightarrow> bool" where
  "is_ascii s = (\<forall>c \<in> set s. (of_char c :: nat) < 128)"

definition headers_encodable :: "KlaviyoClient \<Rightarrow> bool" where
  "headers_encodable self = (is_ascii (api_key self) \<and> is_ascii (revision self))"

definition send :: "KlaviyoClient \<Rightarrow> downstream \<Rightarrow> request \<Rightarrow> net \<Rightarrow> (exn + reply) \<times> net" where
  "send self srv req w =
     (if \<not> headers_encodable self then (Inl UnicodeEncodeError, w)
      else (Inr (srv (requests_sent w) req), w\<lparr>requests_sent := requests_sent w + 1\<rparr>))"

definition sleep :: "real \<Rightarrow> net \<Rightarrow> net" where
  "sleep d w = w\<lparr>sleeps := sleeps w @ [d]\<rparr>"

text \<open>
  \<open>_request\<close>: the loop \<open>for attempt in range(1, MAX_RETRIES + 1)\<close> runs over the list of
  attempt numbers; falling out of the loop is line 81, \<open>return None\<close>. Only
  \<open>HTTPStatusError\<close> and \<open>RequestError\<close> are caught; any other exception leaves the
  function at once.
\<close>

fun request_loop :: "KlaviyoClient \<Rightarrow> downstream \<Rightarrow> request \<Rightarrow> nat list \<Rightarrow> real \<Rightarrow> net \<Rightarrow> ((exn + json) \<times> net) option" where
  "request_loop self srv req [] backoff w = Some (Inr JNull, w)"
| "request_loop self srv req (attempt # rest) backoff w =
     (case send self srv req w of
        (Inl e, w1) \<Rightarrow> Some (Inl e, w1)
      | (Inr (Response status hdr body), w1) \<Rightarrow>
          if status = 429 then
            (case hdr of
               Unparsable \<Rightarrow> Some (Inl ValueError, w1)
             | Forever \<Rightarrow> None
             | Seconds retry_after \<Rightarrow>
                 request_loop self srv req rest (backoff * 2) (sleep retry_after w1)
             | Absent \<Rightarrow> request_loop self srv req rest (backoff * 2) (sleep backoff w1))
          else if \<not> is_success status then
            (if attempt = MAX_RETRIES then Some (Inl (HTTPStatusError status), w1)
             else request_loop self srv req rest (backoff * 2) (sleep backoff w1))
          else if status = 204 then Some (Inr JNull, w1)
          else (case body of None \<Rightarrow> Some (Inl ValueError, w1) | Some j \<Rightarrow> Some (Inr j, w1))
      | (Inr ConnectionFailure, w1) \<Rightarrow>
          if attempt = MAX_RETRIES then Some (Inl RequestError, w1)
          else request_loop self srv req rest (backoff * 2) (sleep backoff w1))"

definition request' :: "KlaviyoClient \<Rightarrow> downstream \<Rightarrow> request \<Rightarrow> net \<Rightarrow> ((exn + json) \<times> net) option" where
  "request' self srv req w = request_loop self srv req [1..<MAX_RETRIES + 1] INITIAL_BACKOFF w"

definition upsert_profile :: "KlaviyoClient \<Rightarrow> downstream \<Rightarrow> ProcessedContact \<Rightarrow> net \<Rightarrow> ((exn + json) \<times> net) option" where
  "upsert_profile self srv contact w =
     (case request' self srv (Profile_import (mode self) contact) w of
        None \<Rightarrow> None
      | Some (Inl e, w') \<Rightarrow> Some (Inl e, w')
      | Some (Inr result, w') \<Rightarrow>
          if json_truthy result then
            (case dict_get result ''data'' (JObj []) of
               Inl e \<Rightarrow> Some (Inl e, w')
             | Inr data \<Rightarrow>
                 (case dict_get data ''id'' JNull of
                    Inl e \<Rightarrow> Some (Inl e, w')
                  | Inr profile_id \<Rightarrow> Some (Inr profile_id, w')))
          else Some (Inr JNull, w'))"

definition add_to_list :: "KlaviyoClient \<Rightarrow> downstream \<Rightarrow> json \<Rightarrow> net \<Rightarrow> ((exn + unit) \<times> net) option" where
  "add_to_list self srv profile_id w =
     (if list_id self = [] then Some (Inr (), w)
      else case request' self srv (List_relationships (list_id self) profile_id) w of
             None \<Rightarrow> None
           | Some (Inl e, w') \<Rightarrow> Some (Inl e, w')
           | Some (Inr result, w') \<Rightarrow> Some (Inr (), w'))"

definition create_event :: "KlaviyoClient \<Rightarrow> downstream \<Rightarrow> ProcessedContact \<Rightarrow> net \<Rightarrow> ((exn + unit) \<times> net) option" where
  "create_event self srv contact w =
     (if mode self \<noteq> EXTENDED then Some (Inr (), w)
      else case request' self srv (Events contact) w of
             None \<Rightarrow> None
           | Some (Inl e, w') \<Rightarrow> Some (Inl e, w')
           | Some (Inr result, w') \<Rightarrow> Some (Inr (), w'))"

text \<open>
  \<open>process_contact\<close>: \<open>steps\<close> is the \<open>try\<close> block, and \<open>except Exception\<close> turns what it
  raises into \<open>False\<close>; anything that is not an \<open>Exception\<close> would pass through.
\<close>

definition steps :: "KlaviyoClient \<Rightarrow> downstream \<Rightarrow> ProcessedContact \<Rightarrow> net \<Rightarrow> ((exn + bool) \<times> net) option" where
  "steps self srv contact w =
     (case upsert_profile self srv contact w of
        None \<Rightarrow> None
      | Some (Inl e, w1) \<Rightarrow> Some (Inl e, w1)
      | Some (Inr profile_id, w1) \<Rightarrow>
          (case (if json_truthy profile_id then add_to_list self srv profile_id w1
                 else Some (Inr (), w1)) of
             None \<Rightarrow> None
           | Some (Inl e, w2) \<Rightarrow> Some (Inl e, w2)
           | Some (Inr u, w2) \<Rightarrow>
               (case create_event self srv contact w2 of
                  None \<Rightarrow> None
                | Some (Inl e, w3) \<Rightarrow> Some (Inl e, w3)
                | Some (Inr u', w3) \<Rightarrow> Some (Inr True, w3))))"

definition process_contact :: "KlaviyoClient \<Rightarrow> downstream \<Rightarrow> ProcessedContact \<Rightarrow> net \<Rightarrow> ((exn + bool) \<times> net) option" where
  "process_contact self srv contact w =
     (case steps self srv contact w of
        None \<Rightarrow> None
      | Some (Inl e, w') \<Rightarrow> if is_Exception e then Some (Inr False, w') else Some (Inl e, w')
      | Some (Inr ok, w') \<Rightarrow> Some (Inr ok, w'))"

section \<open>Buffer store (src/database.py)\<close>

text \<open>
  A row of table \<open>intentions\<close> (lines 22 to 40). \<open>id\<close> is the primary key and
  \<open>email\<close>, \<open>intention_type\<close>, \<open>created_at\<close> and \<open>processed\<close> are \<open>NOT NULL\<close>, so
  these columns are not optional. The database is the table in rowid order together with
  the number of committed write transactions and the engine's limit on the number of
  \<open>?\<close> parameters of one statement (\<open>SQLITE_MAX_VARIABLE_NUMBER\<close>: 999 before SQLite
  3.32, 32766 since, unless the build chooses another). I/O failures of the engine are
  not modelled.
\<close>

record Row =
  id' :: int
  email :: string
  first_name :: "string option"
  last_name :: "string option"
  phone :: "string option"
  intention_type :: IntentionType
  salon_id :: "string option"
  salon_name :: "string option"
  stylist_id :: "string option"
  stylist_name :: "string option"
  treatment :: "string option"
  price :: "real option"
  appointment_date :: "datetime option"
  campaign_source :: "string option"
  raw_payload :: "string option"
  created_at :: datetime
  processed :: bool

record Db =
  intentions :: "Row list"
  commits :: nat
  max_variables :: nat

text \<open>Lines 111 to 133: the \<open>BufferedIntention\<close> built from a fetched row.\<close>

definition row_to_intention :: "Row \<Rightarrow> BufferedIntention" where
  "row_to_intention row =
     \<lparr> BufferedIntention.id' = Some (Row.id' row),
       email = Row.email row,
       first_name = Row.first_name row,
       last_name = Row.last_name row,
       phone = Row.phone row,
       intention_type = Row.intention_type row,
       salon_id = Row.salon_id row,
       salon_name = Row.salon_name row,
       stylist_id = Row.stylist_id row,
       stylist_name = Row.stylist_name row,
       treatment = Row.treatment row,
       price = Row.price row,
       appointment_date = Row.appointment_date row,
       campaign_source = Row.campaign_source row,
       raw_payload = Row.raw_payload row,
       created_at = Some (Row.created_at row),
       processed = Row.processed row \<rparr>"

text \<open>
  \<open>save_intention\<close>: one \<open>INSERT\<close> of the fourteen payload columns and a commit. The
  engine assigns the next \<open>id\<close>, \<open>created_at\<close> (the instant \<open>now\<close> of
  \<open>datetime('now')\<close>) and \<open>processed = 0\<close>. No row is ever deleted, so the next
  \<open>AUTOINCREMENT\<close> id is one more than the largest id in the table.
\<close>

definition save_intention :: "datetime \<Rightarrow> BufferedIntention \<Rightarrow> Db \<Rightarrow> int \<times> Db" where
  "save_intention now intention db =
     (let row_id = fold max (map Row.id' (intentions db)) 0 + 1;
          row = \<lparr> Row.id' = row_id,
                  email = BufferedIntention.email intention,
                  first_name = BufferedIntention.first_name intention,
                  last_name = BufferedIntention.last_name intention,
                  phone = BufferedIntention.phone intention,
                  intention_type = BufferedIntention.intention_type intention,
                  salon_id = BufferedIntention.salon_id intention,
                  salon_name = BufferedIntention.salon_name intention,
                  stylist_id = BufferedIntention.stylist_id intention,
                  stylist_name = BufferedIntention.stylist_name intention,
                  treatment = BufferedIntention.treatment intention,
                  price = BufferedIntention.price intention,
                  appointment_date = BufferedIntention.appointment_date intention,
                  campaign_source = BufferedIntention.campaign_source intention,
                  raw_payload = BufferedIntention.raw_payload intention,
                  created_at = now,
                  processed = False \<rparr>
      in (row_id, db\<lparr> intentions := intentions db @ [row], commits := commits db + 1 \<rparr>))"

text \<open>
  \<open>get_unprocessed_intentions\<close>: \<open>WHERE processed = 0 [AND date(created_at) = ?]
  ORDER BY created_at ASC\<close>. Rows with equal \<open>created_at\<close> are taken in rowid order.
\<close>

definition get_unprocessed_intentions :: "date option \<Rightarrow> Db \<Rightarrow> BufferedIntention list" where
  "get_unprocessed_intentions target_date db =
     map row_to_intention
       (sort_key Row.created_at
          [row \<leftarrow> intentions db.
             \<not> Row.processed row \<and>
             (case target_date of
                Some d \<Rightarrow> date_of (Row.created_at row) = d
              | None \<Rightarrow> True)])"

text \<open>
  \<open>mark_as_processed\<close>: nothing at all for an empty list; otherwise one
  \<open>UPDATE intentions SET processed = 1 WHERE id IN (?,...,?)\<close> with one parameter per
  id, and a commit. With more ids than the engine allows parameters, \<open>execute\<close> raises
  \<open>sqlite3.OperationalError\<close> (too many SQL variables) and no row is updated.
\<close>

definition mark_as_processed :: "int list \<Rightarrow> Db \<Rightarrow> (exn + unit) \<times> Db" where
  "mark_as_processed intention_ids db =
     (if intention_ids = [] then (Inr (), db)
      else if max_variables db < length intention_ids then (Inl OperationalError, db)
      else (Inr (),
            db\<lparr> intentions :=
                  map (\<lambda>row. if Row.id' row \<in> set intention_ids
                              then row\<lparr>Row.processed := True\<rparr> else row)
                      (intentions db),
                commits := commits db + 1 \<rparr>))"

section \<open>Sync orchestrator (src/scheduler.py)\<close>

record SyncResult =
  date :: date
  intentions_found :: int
  contacts_processed :: int
  success :: int
  failed :: int

record world =
  db :: Db
  net :: net

text \<open>The loop of lines 55 to 60 over the contacts, tallying the outcomes.\<close>

fun forward_all :: "KlaviyoClient \<Rightarrow> downstream \<Rightarrow> ProcessedContact list \<Rightarrow> int \<Rightarrow> int \<Rightarrow> net \<Rightarrow> ((exn + int \<times> int) \<times> net) option" where
  "forward_all self srv [] success_count failed_count w =
     Some (Inr (success_count, failed_count), w)"
| "forward_all self srv (contact # rest) success_count failed_count w =
     (case process_contact self srv contact w of
        None \<Rightarrow> None
      | Some (Inl e, w') \<Rightarrow> Some (Inl e, w')
      | Some (Inr ok, w') \<Rightarrow>
          if ok then forward_all self srv rest (success_count + 1) failed_count w'
          else forward_all self srv rest success_count (failed_count + 1) w')"

text \<open>
  \<open>run_daily_sync\<close>; \<open>today\<close> is what \<open>date.today()\<close> returns. An exception of the
  aggregator or of the forwarding loop leaves before the records are marked, and an
  exception of \<open>mark_as_processed\<close> leaves after everything has been forwarded.
\<close>

definition run_daily_sync :: "KlaviyoClient \<Rightarrow> downstream \<Rightarrow> date \<Rightarrow> date option \<Rightarrow> world \<Rightarrow> ((exn + SyncResult) \<times> world) option" where
  "run_daily_sync self srv today target_date W =
     (let target_date' = (case target_date of None \<Rightarrow> today - 1 | Some d \<Rightarrow> d);
          intentions' = get_unprocessed_intentions (Some target_date') (db W)
      in if intentions' = [] then
           Some (Inr \<lparr> date = target_date', intentions_found = 0, contacts_processed = 0,
                       success = 0, failed = 0 \<rparr>, W)
         else
           (case aggregate_intentions intentions' of
              Inl e \<Rightarrow> Some (Inl e, W)
            | Inr contacts \<Rightarrow>
                (case forward_all self srv contacts 0 0 (net W) of
                   None \<Rightarrow> None
                 | Some (Inl e, w') \<Rightarrow> Some (Inl e, W\<lparr>net := w'\<rparr>)
                 | Some (Inr (success_count, failed_count), w') \<Rightarrow>
                     (let all_ids =
                            concat (map (\<lambda>i. case BufferedIntention.id' i of
                                               None \<Rightarrow> [] | Some n \<Rightarrow> [n]) intentions')
                      in case mark_as_processed all_ids (db W) of
                           (Inl e, db') \<Rightarrow> Some (Inl e, \<lparr> db = db', net = w' \<rparr>)
                         | (Inr u, db') \<Rightarrow>
                             Some (Inr \<lparr> date = target_date',
                                         intentions_found = int (length intentions'),
                                         contacts_processed = int (length contacts),
                                         success = success_count,
                                         failed = failed_count \<rparr>,
                                   \<lparr> db = db', net = w' \<rparr>)))))"

section \<open>Notions used to state the properties\<close>

text \<open>
  The group of a key: the input records that are grouped under the normalized key \<open>k\<close>,
  in input order.
\<close>

definition group_of :: "string \<Rightarrow> BufferedIntention list \<Rightarrow> BufferedIntention list" where
  "group_of k rs =
     [r \<leftarrow> rs. BufferedIntention.email r \<noteq> [] \<and> normalize_email (BufferedIntention.email r) = k]"

text \<open>
  A list of records is in creation-ascending order when every record carries its creation
  timestamp and the timestamps never decrease along the list, as in the result of
  \<open>get_unprocessed_intentions\<close>.
\<close>

definition creation_ascending :: "BufferedIntention list \<Rightarrow> bool" where
  "creation_ascending rs \<longleftrightarrow>
     (\<forall>r \<in> set rs. BufferedIntention.created_at r \<noteq> None) \<and>
     sorted (map (\<lambda>r. the (BufferedIntention.created_at r)) rs)"

text \<open>
  A downstream keeps the client waiting for a finite time when none of its replies carries
  an infinite \<open>Retry-After\<close>.
\<close>

definition finite_waits :: "downstream \<Rightarrow> bool" where
  "finite_waits srv \<longleftrightarrow> (\<forall>n req status body. srv n req \<noteq> Response status Forever body)"

section \<open>Example data\<close>

text \<open>
  Two records of one customer: an intention filed under \<open>A@x.com\<close> and a later
  appointment for a cut filed under \<open>a@x.com\<close> followed by a blank.
\<close>

definition scenario :: "BufferedIntention list" where
  "scenario =
     [ (new_intention ''A@x.com'' INTENTION)
         \<lparr> BufferedIntention.id' := Some 1, BufferedIntention.created_at := Some 100 \<rparr>,
       (new_intention ''a@x.com '' APPOINTMENT)
         \<lparr> BufferedIntention.id' := Some 2, BufferedIntention.treatment := Some ''cut'',
           BufferedIntention.created_at := Some 200 \<rparr> ]"


text \<open>
  Two intentions of one customer buffered within the same second, in the order in which
  the buffer returns them.
\<close>

definition same_second :: "BufferedIntention list" where
  "same_second =
     [ (new_intention ''kim@x.com'' INTENTION)
         \<lparr> BufferedIntention.id' := Some 1, BufferedIntention.first_name := Some ''Kim'',
           BufferedIntention.treatment := Some ''cut'',
           BufferedIntention.created_at := Some 100 \<rparr>,
       (new_intention ''kim@x.com'' INTENTION)
         \<lparr> BufferedIntention.id' := Some 2, BufferedIntention.first_name := Some ''Kimberly'',
           BufferedIntention.treatment := Some ''colour'',
           BufferedIntention.created_at := Some 100 \<rparr> ]"

text \<open>
  A buffer that holds the two records of \<open>scenario\<close>, saved at the instants 100 and
  200 of day 0, on an engine that allows 999 parameters per statement, and a world
  around it in which no request has been sent yet.
\<close>

definition buffered :: Db where
  "buffered =
     snd (save_intention 200
            ((new_intention ''a@x.com '' APPOINTMENT)
               \<lparr> BufferedIntention.treatment := Some ''cut'' \<rparr>)
            (snd (save_intention 100 (new_intention ''A@x.com'' INTENTION)
                    \<lparr> intentions = [], commits = 0, max_variables = 999 \<rparr>)))"

definition idle :: net where
  "idle = \<lparr> requests_sent = 0, sleeps = [] \<rparr>"

definition start :: world where
  "start = \<lparr> db = buffered, net = idle \<rparr>"

text \<open>Clients in both modes, with a target list configured.\<close>

definition simple_client :: KlaviyoClient where
  "simple_client =
     \<lparr> api_key = ''pk_test'', list_id = ''L1'', revision = ''2024-10-15'', mode = SIMPLE \<rparr>"

definition extended_client :: KlaviyoClient where
  "extended_client = simple_client\<lparr> mode := EXTENDED \<rparr>"

text \<open>
  Four downstreams: one that answers every request with 429 and no \<open>Retry-After\<close>, one
  that cannot be reached, one that accepts everything (a profile id for an import, 204
  for the rest), and one that accepts a profile import and fails every later request with
  status 500.
\<close>

definition rate_limited :: downstream where
  "rate_limited n req = Response 429 Absent None"

definition unreachable :: downstream where
  "unreachable n req = ConnectionFailure"

definition accepting :: downstream where
  "accepting n req =
     (case req of
        Profile_import m c \<Rightarrow>
          Response 200 Absent (Some (JObj [(''data'', JObj [(''id'', JStr ''P1'')])]))
      | _ \<Rightarrow> Response 204 Absent None)"

definition kim :: ProcessedContact where
  "kim =
     \<lparr> ProcessedContact.email = ''kim@x.com'', first_name = Some ''Kim'', last_name = None,
       phone = None, event_name = ''appointmentIntention'', salon_id = None,
       salon_name = None, stylist_id = None, stylist_name = None, treatment = None,
       price = None, appointment_date = None, campaign_source = None,
       is_new_client = None, intention_count = 1, appointment_count = 0 \<rparr>"


text \<open>
  The world of \<open>start\<close> on an engine that allows one parameter per statement, so that the
  two buffered records are already more than one \<open>UPDATE\<close> can name.
\<close>

definition cramped :: world where
  "cramped = start\<lparr> db := buffered\<lparr> max_variables := 1 \<rparr> \<rparr>"

section \<open>The grouping loop\<close>

lemma map_of_dict_append:
  "map_of (dict_append d k r) =
     (map_of d)(k \<mapsto> (case map_of d k of None \<Rightarrow> [r] | Some rs \<Rightarrow> rs @ [r]))"
  by (induction d k r rule: dict_append.induct) (auto simp: fun_eq_iff)

lemma keys_dict_append:
  "map fst (dict_append d k r) = (if k \<in> fst ` set d then map fst d else map fst d @ [k])"
  by (induction d k r rule: dict_append.induct) (auto simp: image_iff)

lemma distinct_dict_append:
  "distinct (map fst d) \<Longrightarrow> distinct (map fst (dict_append d k r))"
  by (simp add: keys_dict_append)

lemma distinct_group_by_email:
  "distinct (map fst d) \<Longrightarrow> distinct (map fst (group_by_email rs d))"
  by (induction rs arbitrary: d) (simp_all add: distinct_dict_append)

lemma keys_group_by_email:
  "fst ` set (group_by_email rs d) =
     fst ` set d \<union> {normalize_email (BufferedIntention.email r) | r. r \<in> set rs \<and> BufferedIntention.email r \<noteq> []}"
proof (induction rs arbitrary: d)
  case Nil then show ?case by simp
next
  case (Cons a rs)
  have k: "fst ` set (dict_append d k r) = insert k (fst ` set d)" for k r
    by (induction d k r rule: dict_append.induct) auto
  show ?case using Cons.IH by (auto simp: k)
qed

lemma map_of_group_by_email:
  "map_of (group_by_email rs d) k =
     (case map_of d k of
        None \<Rightarrow> if group_of k rs = [] then None else Some (group_of k rs)
      | Some g \<Rightarrow> Some (g @ group_of k rs))"
  by (induction rs arbitrary: d) (auto simp: group_of_def map_of_dict_append split: option.splits)

lemma group_by_email_entry:
  assumes "(k, g) \<in> set (group_by_email rs [])"
  shows "g = group_of k rs" and "group_of k rs \<noteq> []"
proof -
  have "distinct (map fst (group_by_email rs []))" by (simp add: distinct_group_by_email)
  then have "map_of (group_by_email rs []) k = Some g" using assms by simp
  then show "g = group_of k rs" and "group_of k rs \<noteq> []"
    by (auto simp: map_of_group_by_email split: if_splits)
qed

lemma contacts_loop_Inr:
  "contacts_loop items acc = Inr cs \<Longrightarrow>
     \<exists>cs'. cs = acc @ cs' \<and> list_all2 (\<lambda>(k, g) c. build_contact k g = Inr c) items cs'"
proof (induction items acc rule: contacts_loop.induct)
  case (1 contacts) then show ?case by simp
next
  case (2 email' records items contacts)
  then show ?case by (auto split: sum.splits)
qed

lemma contacts_loop_total:
  "\<forall>(k, g) \<in> set items. \<exists>c. build_contact k g = Inr c \<Longrightarrow> \<exists>cs. contacts_loop items acc = Inr cs"
proof (induction items acc rule: contacts_loop.induct)
  case (1 contacts) then show ?case by simp
next
  case (2 email' records items contacts)
  then show ?case by (auto split: sum.splits)
qed

section \<open>Building the contacts\<close>

lemma max_loop_total:
  "\<forall>x \<in> set xs. key x \<noteq> None \<Longrightarrow> mv \<noteq> None \<Longrightarrow> \<exists>m. max_loop key mi mv xs = Inr m"
  by (induction xs arbitrary: mi mv) (auto split: option.splits)

lemma py_max_total:
  "xs \<noteq> [] \<Longrightarrow> \<forall>x \<in> set xs. key x \<noteq> None \<Longrightarrow> \<exists>m. py_max xs key = Inr m"
  by (cases xs) (auto simp: py_max_def intro: max_loop_total)

lemma latest_key_stamped: "BufferedIntention.created_at r \<noteq> None \<Longrightarrow> latest_key r \<noteq> None"
  by (auto simp: latest_key_def split: option.splits)

lemma build_contact_total:
  assumes "g \<noteq> []" and "\<forall>r \<in> set g. BufferedIntention.created_at r \<noteq> None"
  shows "\<exists>c. build_contact k g = Inr c"
proof -
  from assms obtain m where "py_max g latest_key = Inr m"
    using py_max_total[of g latest_key] by (auto simp: latest_key_stamped)
  then show ?thesis by (simp add: build_contact_def Let_def)
qed

lemma build_contact_email: "build_contact k g = Inr c \<Longrightarrow> ProcessedContact.email c = k"
  by (auto simp: build_contact_def Let_def split: sum.splits)

lemma build_contact_counts:
  "build_contact k g = Inr c \<Longrightarrow>
     ProcessedContact.intention_count c = int (length [r \<leftarrow> g. BufferedIntention.intention_type r = INTENTION]) \<and>
     ProcessedContact.appointment_count c = int (length [r \<leftarrow> g. BufferedIntention.intention_type r = APPOINTMENT])"
  by (auto simp: build_contact_def Let_def split: sum.splits)


lemma aggregate_contacts:
  assumes "aggregate_intentions rs = Inr cs"
  shows "list_all2 (\<lambda>(k, g) c. build_contact k g = Inr c) (group_by_email rs []) cs"
proof (cases "rs = []")
  case True with assms show ?thesis by (simp add: aggregate_intentions_def)
next
  case False
  with assms have "contacts_loop (group_by_email rs []) [] = Inr cs"
    by (simp add: aggregate_intentions_def)
  from contacts_loop_Inr[OF this] show ?thesis by simp
qed

lemma aggregate_member:
  assumes "aggregate_intentions rs = Inr cs" and "c \<in> set cs"
  shows "build_contact (ProcessedContact.email c) (group_of (ProcessedContact.email c) rs) = Inr c
         \<and> group_of (ProcessedContact.email c) rs \<noteq> []"
proof -
  from aggregate_contacts[OF assms(1)] assms(2)
  obtain k g where kg: "(k, g) \<in> set (group_by_email rs [])" and b: "build_contact k g = Inr c"
    by (auto simp: in_set_conv_nth list_all2_conv_all_nth split: prod.splits) (metis surj_pair)
  from group_by_email_entry[OF kg] build_contact_email[OF b] b show ?thesis by auto
qed

lemma aggregate_emails:
  assumes "aggregate_intentions rs = Inr cs"
  shows "map ProcessedContact.email cs = map fst (group_by_email rs [])"
proof -
  have "list_all2 (\<lambda>(k, g) c. build_contact k g = Inr c) xs cs \<Longrightarrow> map ProcessedContact.email cs = map fst xs" for xs
    by (induction xs cs rule: list_all2_induct) (auto simp: build_contact_email)
  with aggregate_contacts[OF assms] show ?thesis by simp
qed

lemma aggregate_total:
  assumes "\<forall>r \<in> set rs. BufferedIntention.created_at r \<noteq> None"
  shows "\<exists>cs. aggregate_intentions rs = Inr cs"
proof (cases "rs = []")
  case True then show ?thesis by (simp add: aggregate_intentions_def)
next
  case False
  have "\<forall>(k, g) \<in> set (group_by_email rs []). \<exists>c. build_contact k g = Inr c"
  proof (clarify)
    fix k g assume "(k, g) \<in> set (group_by_email rs [])"
    from group_by_email_entry[OF this] have "g = group_of k rs" "g \<noteq> []" by auto
    moreover have "\<forall>r \<in> set (group_of k rs). BufferedIntention.created_at r \<noteq> None"
      using assms by (simp add: group_of_def)
    ultimately show "\<exists>c. build_contact k g = Inr c" using build_contact_total by blast
  qed
  from contacts_loop_total[OF this] False show ?thesis by (simp add: aggregate_intentions_def)
qed

lemma group_by_email_filter:
  "group_by_email [r \<leftarrow> rs. BufferedIntention.email r \<noteq> []] d = group_by_email rs d"
  by (induction rs arbitrary: d) simp_all

lemma group_by_email_all_empty:
  "\<forall>r \<in> set rs. BufferedIntention.email r = [] \<Longrightarrow> group_by_email rs d = d"
  by (induction rs arbitrary: d) simp_all


section \<open>Resolving the name, phone and source fields\<close>








section \<open>The retry loop and the forward boundary\<close>

lemma attempts: "[1..<MAX_RETRIES + 1] = [1, 2, 3]"
  by (simp add: MAX_RETRIES_def upt_rec)

lemma request_rate_limited:
  "headers_encodable self \<Longrightarrow>
   request' self rate_limited req w =
     Some (Inr JNull, w\<lparr>requests_sent := requests_sent w + 3, sleeps := sleeps w @ [1, 2, 4]\<rparr>)"
  unfolding request'_def attempts
  by (simp add: INITIAL_BACKOFF_def rate_limited_def send_def sleep_def)

lemma request_unreachable:
  "headers_encodable self \<Longrightarrow>
   request' self unreachable req w =
     Some (Inl RequestError, w\<lparr>requests_sent := requests_sent w + 3, sleeps := sleeps w @ [1, 2]\<rparr>)"
  unfolding request'_def attempts
  by (simp add: INITIAL_BACKOFF_def unreachable_def send_def sleep_def MAX_RETRIES_def)

lemma is_Exception_all: "is_Exception e"
  by (cases e) simp_all

lemma request_loop_returns:
  "finite_waits srv \<Longrightarrow> \<exists>r. request_loop self srv req as backoff w = Some r"
proof (induction as arbitrary: backoff w)
  case Nil
  then show ?case by simp
next
  case (Cons attempt rest)
  show ?case
  proof (cases "send self srv req w")
    case (Pair r w1)
    show ?thesis
    proof (cases r)
      case (Inl e)
      with Pair show ?thesis by simp
    next
      case (Inr rep)
      show ?thesis
      proof (cases rep)
        case ConnectionFailure
        with Pair Inr Cons show ?thesis by simp
      next
        case (Response status hdr body)
        with Pair Inr have "srv (requests_sent w) req = Response status hdr body"
          by (auto simp: send_def split: if_splits)
        with Cons.prems have "hdr \<noteq> Forever"
          by (auto simp: finite_waits_def)
        with Pair Inr Response Cons show ?thesis
          by (cases hdr; cases body) simp_all
      qed
    qed
  qed
qed

lemma request_returns:
  "finite_waits srv \<Longrightarrow> \<exists>r. request' self srv req w = Some r"
  unfolding request'_def by (rule request_loop_returns)

lemma upsert_profile_returns:
  assumes "finite_waits srv"
  shows "\<exists>r. upsert_profile self srv contact w = Some r"
proof -
  from request_returns[OF assms] obtain r
    where "request' self srv (Profile_import (mode self) contact) w = Some r" by blast
  then show ?thesis
    by (cases r) (auto simp: upsert_profile_def split: sum.splits)
qed

lemma add_to_list_returns:
  assumes "finite_waits srv"
  shows "\<exists>r. add_to_list self srv profile_id w = Some r"
proof (cases "list_id self = []")
  case True
  then show ?thesis by (simp add: add_to_list_def)
next
  case False
  from request_returns[OF assms] obtain r
    where "request' self srv (List_relationships (list_id self) profile_id) w = Some r" by blast
  with False show ?thesis
    by (cases r) (auto simp: add_to_list_def split: sum.splits)
qed

lemma create_event_returns:
  assumes "finite_waits srv"
  shows "\<exists>r. create_event self srv contact w = Some r"
proof (cases "mode self \<noteq> EXTENDED")
  case True
  then show ?thesis by (simp add: create_event_def)
next
  case False
  from request_returns[OF assms] obtain r
    where "request' self srv (Events contact) w = Some r" by blast
  with False show ?thesis
    by (cases r) (auto simp: create_event_def split: sum.splits)
qed

lemma steps_returns:
  assumes "finite_waits srv"
  shows "\<exists>r. steps self srv contact w = Some r"
proof -
  obtain r1 w1 where u: "upsert_profile self srv contact w = Some (r1, w1)"
    using upsert_profile_returns[OF assms] by fastforce
  show ?thesis
  proof (cases r1)
    case (Inl e)
    with u show ?thesis by (simp add: steps_def)
  next
    case (Inr profile_id)
    obtain r2 w2 where a: "(if json_truthy profile_id then add_to_list self srv profile_id w1
                 else Some (Inr (), w1)) = Some (r2, w2)"
      using add_to_list_returns[OF assms, of self profile_id w1] by (cases "json_truthy profile_id") fastforce+
    show ?thesis
    proof (cases r2)
      case (Inl e)
      with u Inr a show ?thesis by (simp add: steps_def)
    next
      case (Inr u')
      obtain r3 w3 where c: "create_event self srv contact w2 = Some (r3, w3)"
        using create_event_returns[OF assms] by fastforce
      with u \<open>r1 = Inr profile_id\<close> a Inr show ?thesis
        by (cases r3) (simp_all add: steps_def)
    qed
  qed
qed

lemma process_contact_no_exception:
  "process_contact self srv contact w \<noteq> Some (Inl e, w')"
  by (auto simp: process_contact_def is_Exception_all split: option.splits sum.splits prod.splits)

lemma process_contact_returns:
  assumes "finite_waits srv"
  shows "\<exists>ok w'. process_contact self srv contact w = Some (Inr ok, w')"
proof -
  obtain r w' where "steps self srv contact w = Some (r, w')"
    using steps_returns[OF assms] by fastforce
  then show ?thesis
    by (cases r) (auto simp: process_contact_def is_Exception_all)
qed


section \<open>Marking and the forwarding loop\<close>

lemma mark_as_processed_outcome:
  "fst (mark_as_processed ids store) =
     (if max_variables store < length ids then Inl OperationalError else Inr ())"
  by (cases ids) (simp_all add: mark_as_processed_def)

lemma mark_as_processed_rows:
  "intentions (snd (mark_as_processed ids store)) =
     (if max_variables store < length ids then intentions store
      else map (\<lambda>row. if Row.id' row \<in> set ids then row\<lparr>Row.processed := True\<rparr> else row)
               (intentions store))"
  by (cases "ids = []") (simp_all add: mark_as_processed_def)

lemma mark_as_processed_limit:
  "max_variables (snd (mark_as_processed ids store)) = max_variables store"
  by (simp add: mark_as_processed_def)

lemma forward_all_no_exception:
  "forward_all self srv contacts s0 f0 w \<noteq> Some (Inl e, w')"
proof (induction contacts arbitrary: s0 f0 w)
  case Nil
  then show ?case by simp
next
  case (Cons c contacts)
  show ?case
  proof (cases "process_contact self srv c w")
    case None
    then show ?thesis by simp
  next
    case (Some r)
    obtain x w1 where r: "r = (x, w1)" by (cases r)
    show ?thesis
    proof (cases x)
      case (Inl e')
      with Some r process_contact_no_exception show ?thesis by blast
    next
      case (Inr ok)
      with Some r Cons.IH show ?thesis by (cases ok) simp_all
    qed
  qed
qed

lemma forward_all_returns:
  assumes "finite_waits srv"
  shows "\<exists>s f w'. forward_all self srv contacts s0 f0 w = Some (Inr (s, f), w')"
proof (induction contacts arbitrary: s0 f0 w)
  case Nil
  then show ?case by simp
next
  case (Cons c contacts)
  obtain ok w1 where "process_contact self srv c w = Some (Inr ok, w1)"
    using process_contact_returns[OF assms] by blast
  then show ?case using Cons.IH by (cases ok) simp_all
qed

lemma fetched_stamped:
  "\<forall>i \<in> set (get_unprocessed_intentions t store). BufferedIntention.created_at i \<noteq> None"
  by (auto simp: get_unprocessed_intentions_def row_to_intention_def)

lemma fetched_ids:
  "concat (map (\<lambda>i. case BufferedIntention.id' i of None \<Rightarrow> [] | Some n \<Rightarrow> [n])
             (map row_to_intention rows)) = map Row.id' rows"
  by (induction rows) (simp_all add: row_to_intention_def)

lemma unprocessed_after_mark:
  assumes "\<forall>row \<in> set (intentions store).
             \<not> Row.processed row \<and> date_of (Row.created_at row) = d \<longrightarrow> Row.id' row \<in> set ids"
    and "length ids \<le> max_variables store"
  shows "get_unprocessed_intentions (Some d) (snd (mark_as_processed ids store)) = []"
proof -
  have "[row \<leftarrow> intentions (snd (mark_as_processed ids store)).
           \<not> Row.processed row \<and> date_of (Row.created_at row) = d] = []"
    using assms by (auto simp: mark_as_processed_rows filter_empty_conv)
  then show ?thesis by (simp add: get_unprocessed_intentions_def)
qed

lemma run_daily_sync_drains_within_limit:
  assumes fw: "finite_waits srv"
    and fits: "length (get_unprocessed_intentions
                 (Some (case target_date of None \<Rightarrow> today - 1 | Some d \<Rightarrow> d)) (db W))
               \<le> max_variables (db W)"
  shows "\<exists>res W'.
      run_daily_sync self srv today target_date W = Some (Inr res, W') \<and>
      (\<forall>i \<in> set (get_unprocessed_intentions
                    (Some (case target_date of None \<Rightarrow> today - 1 | Some d \<Rightarrow> d)) (db W)).
         \<forall>row \<in> set (intentions (db W')).
           Some (Row.id' row) = BufferedIntention.id' i \<longrightarrow> Row.processed row) \<and>
      get_unprocessed_intentions
        (Some (case target_date of None \<Rightarrow> today - 1 | Some d \<Rightarrow> d)) (db W') = []"
proof -
  let ?d = "case target_date of None \<Rightarrow> today - 1 | Some d \<Rightarrow> d"
  let ?rows = "sort_key Row.created_at
                 [row \<leftarrow> intentions (db W). \<not> Row.processed row \<and> date_of (Row.created_at row) = ?d]"
  let ?fetched = "get_unprocessed_intentions (Some ?d) (db W)"
  have fetched: "?fetched = map row_to_intention ?rows"
    by (simp add: get_unprocessed_intentions_def)
  show ?thesis
  proof (cases "?fetched = []")
    case True
    then have "run_daily_sync self srv today target_date W =
                 Some (Inr \<lparr> date = ?d, intentions_found = 0, contacts_processed = 0,
                        success = 0, failed = 0 \<rparr>, W)"
      by (simp add: run_daily_sync_def)
    with True show ?thesis by simp
  next
    case False
    obtain contacts where agg: "aggregate_intentions ?fetched = Inr contacts"
      using aggregate_total[OF fetched_stamped] by blast
    obtain s f w' where fwd: "forward_all self srv contacts 0 0 (net W) = Some (Inr (s, f), w')"
      using forward_all_returns[OF fw] by blast
    let ?ids = "map Row.id' ?rows"
    let ?res = "\<lparr> date = ?d, intentions_found = int (length ?fetched),
                   contacts_processed = int (length contacts), success = s, failed = f \<rparr>"
    have ids: "concat (map (\<lambda>i. case BufferedIntention.id' i of None \<Rightarrow> [] | Some n \<Rightarrow> [n]) ?fetched) = ?ids"
      unfolding fetched by (rule fetched_ids)
    have len: "length ?ids \<le> max_variables (db W)"
      using fits unfolding fetched by simp
    then have ok: "fst (mark_as_processed ?ids (db W)) = Inr ()"
      by (simp add: mark_as_processed_outcome)
    then obtain db' where mk: "mark_as_processed ?ids (db W) = (Inr (), db')"
      by (cases "mark_as_processed ?ids (db W)") auto
    then have db': "db' = snd (mark_as_processed ?ids (db W))"
      by simp
    let ?W' = "\<lparr> db = db', net = w' \<rparr>"
    have run: "run_daily_sync self srv today target_date W = Some (Inr ?res, ?W')"
      unfolding run_daily_sync_def Let_def ids using False agg fwd mk by simp
    have marked: "\<forall>i \<in> set ?fetched. \<forall>row \<in> set (intentions (db ?W')).
           Some (Row.id' row) = BufferedIntention.id' i \<longrightarrow> Row.processed row"
    proof (intro ballI impI)
      fix i row
      assume i: "i \<in> set ?fetched" and row: "row \<in> set (intentions (db ?W'))"
        and eq: "Some (Row.id' row) = BufferedIntention.id' i"
      from i obtain r where r: "r \<in> set ?rows" and "i = row_to_intention r"
        unfolding fetched by auto
      with eq have "Row.id' row = Row.id' r"
        by (simp add: row_to_intention_def)
      with r have "Row.id' row \<in> set ?ids" by force
      moreover from row len obtain row0 where "row0 \<in> set (intentions (db W))"
        and "row = (if Row.id' row0 \<in> set ?ids then row0\<lparr>Row.processed := True\<rparr> else row0)"
        by (auto simp: db' mark_as_processed_rows)
      ultimately show "Row.processed row"
        by (cases "Row.id' row0 \<in> set ?ids") auto
    qed
    have "get_unprocessed_intentions (Some ?d) db' = []"
      unfolding db' by (rule unprocessed_after_mark[OF _ len]) auto
    then have drained: "get_unprocessed_intentions (Some ?d) (db ?W') = []" by simp
    from run marked drained show ?thesis by blast
  qed
qed


section \<open>The order of the fetched records and the source of the business context\<close>

text \<open>
  What the buffer hands to the aggregator is in creation-ascending order. In a group whose
  records carry their timestamps, the business-context fields come from the last
  appointment if there is one, and otherwise from the first record that carries the
  largest timestamp.
\<close>

lemma fetched_creation_ascending:
  "creation_ascending (get_unprocessed_intentions t store)"
  unfolding creation_ascending_def
proof
  show "\<forall>r \<in> set (get_unprocessed_intentions t store). BufferedIntention.created_at r \<noteq> None"
    by (rule fetched_stamped)
  have m: "map (\<lambda>r. the (BufferedIntention.created_at r)) (map row_to_intention rows) =
          map Row.created_at rows" for rows
    by (induction rows) (simp_all add: row_to_intention_def)
  show "sorted (map (\<lambda>r. the (BufferedIntention.created_at r)) (get_unprocessed_intentions t store))"
    unfolding get_unprocessed_intentions_def m by simp
qed

lemma max_loop_first_maximal:
  assumes "max_loop key mi (Some m) xs = Inr r" and "key mi = Some m"
  shows "\<exists>pre post. mi # xs = pre @ r # post \<and>
           (\<forall>x \<in> set pre. the (key x) < the (key r)) \<and>
           (\<forall>x \<in> set post. the (key x) \<le> the (key r))"
  using assms
proof (induction xs arbitrary: mi m)
  case Nil
  then have "r = mi" by simp
  then have "[mi] = [] @ r # [] \<and> (\<forall>x \<in> set []. the (key x) < the (key r)) \<and>
           (\<forall>x \<in> set []. the (key x) \<le> the (key r))" by simp
  then show ?case by blast
next
  case (Cons x xs)
  from Cons.prems(1) obtain v where v: "key x = Some v"
    by (cases "key x") simp_all
  show ?case
  proof (cases "v > m")
    case True
    with Cons.prems v have "max_loop key x (Some v) xs = Inr r" by simp
    from Cons.IH[OF this v] obtain pre post where
      d: "x # xs = pre @ r # post" and
      lt: "\<forall>y \<in> set pre. the (key y) < the (key r)" and
      le: "\<forall>y \<in> set post. the (key y) \<le> the (key r)" by blast
    have "v \<le> the (key r)"
    proof (cases pre)
      case Nil with d v show ?thesis by simp
    next
      case (Cons p pre') with d lt v show ?thesis by auto
    qed
    with True Cons.prems(2) have "the (key mi) < the (key r)" by simp
    with d lt le have "mi # x # xs = (mi # pre) @ r # post \<and>
           (\<forall>y \<in> set (mi # pre). the (key y) < the (key r)) \<and>
           (\<forall>y \<in> set post. the (key y) \<le> the (key r))" by simp
    then show ?thesis by blast
  next
    case False
    with Cons.prems v have "max_loop key mi (Some m) xs = Inr r" by simp
    from Cons.IH[OF this Cons.prems(2)] obtain pre post where
      d: "mi # xs = pre @ r # post" and
      lt: "\<forall>y \<in> set pre. the (key y) < the (key r)" and
      le: "\<forall>y \<in> set post. the (key y) \<le> the (key r)" by blast
    show ?thesis
    proof (cases pre)
      case Nil
      with d have "r = mi" "post = xs" by simp_all
      with False v le Cons.prems(2) have "mi # x # xs = [] @ r # (x # xs) \<and>
           (\<forall>y \<in> set []. the (key y) < the (key r)) \<and>
           (\<forall>y \<in> set (x # xs). the (key y) \<le> the (key r))" by simp
      then show ?thesis by blast
    next
      case (Cons p pre')
      with d have p: "p = mi" and xs: "xs = pre' @ r # post" by simp_all
      from lt Cons p Cons.prems(2) have "m < the (key r)" by simp
      with False v lt le Cons p xs have "mi # x # xs = (mi # x # pre') @ r # post \<and>
           (\<forall>y \<in> set (mi # x # pre'). the (key y) < the (key r)) \<and>
           (\<forall>y \<in> set post. the (key y) \<le> the (key r))" by simp
      then show ?thesis by blast
    qed
  qed
qed

lemma detail_record_source:
  assumes "build_contact k g = Inr c"
    and "\<forall>r \<in> set g. BufferedIntention.created_at r \<noteq> None"
  shows "\<exists>d \<in> set g.
           ProcessedContact.salon_id c = BufferedIntention.salon_id d \<and>
           ProcessedContact.salon_name c = BufferedIntention.salon_name d \<and>
           ProcessedContact.stylist_id c = BufferedIntention.stylist_id d \<and>
           ProcessedContact.stylist_name c = BufferedIntention.stylist_name d \<and>
           ProcessedContact.treatment c = BufferedIntention.treatment d \<and>
           ProcessedContact.price c = BufferedIntention.price d \<and>
           ProcessedContact.appointment_date c = BufferedIntention.appointment_date d \<and>
           (if \<exists>a \<in> set g. BufferedIntention.intention_type a = APPOINTMENT
            then d = last [a \<leftarrow> g. BufferedIntention.intention_type a = APPOINTMENT]
            else \<exists>pre post. g = pre @ d # post \<and>
                   (\<forall>x \<in> set pre. the (BufferedIntention.created_at x)
                                    < the (BufferedIntention.created_at d)) \<and>
                   (\<forall>x \<in> set post. the (BufferedIntention.created_at x)
                                    \<le> the (BufferedIntention.created_at d)))"
proof -
  from assms(1) obtain latest where mx: "py_max g latest_key = Inr latest"
    by (auto simp: build_contact_def Let_def split: sum.splits)
  let ?apps = "[a \<leftarrow> g. BufferedIntention.intention_type a = APPOINTMENT]"
  let ?d = "if ?apps \<noteq> [] then last ?apps else latest"
  have key: "latest_key r = BufferedIntention.created_at r" if "r \<in> set g" for r
    using assms(2) that by (auto simp: latest_key_def split: option.splits)
  from mx obtain x xs where g: "g = x # xs" and ml: "max_loop latest_key x (latest_key x) xs = Inr latest"
    by (cases g) (simp_all add: py_max_def)
  from assms(2) g obtain m where m: "latest_key x = Some m"
    by (auto simp: latest_key_def)
  from max_loop_first_maximal[OF ml[unfolded m] m] obtain pre post where
    d: "g = pre @ latest # post" and
    lt: "\<forall>y \<in> set pre. the (latest_key y) < the (latest_key latest)" and
    le: "\<forall>y \<in> set post. the (latest_key y) \<le> the (latest_key latest)"
    unfolding g by blast
  have fields: "ProcessedContact.salon_id c = BufferedIntention.salon_id ?d \<and>
           ProcessedContact.salon_name c = BufferedIntention.salon_name ?d \<and>
           ProcessedContact.stylist_id c = BufferedIntention.stylist_id ?d \<and>
           ProcessedContact.stylist_name c = BufferedIntention.stylist_name ?d \<and>
           ProcessedContact.treatment c = BufferedIntention.treatment ?d \<and>
           ProcessedContact.price c = BufferedIntention.price ?d \<and>
           ProcessedContact.appointment_date c = BufferedIntention.appointment_date ?d"
    using assms(1) mx by (auto simp: build_contact_def Let_def)
  show ?thesis
  proof (cases "?apps = []")
    case True
    then have no: "\<not> (\<exists>a \<in> set g. BufferedIntention.intention_type a = APPOINTMENT)"
      by (simp add: filter_empty_conv)
    have in_g: "latest \<in> set g" using d by simp
    have "\<forall>y \<in> set pre. the (BufferedIntention.created_at y) < the (BufferedIntention.created_at latest)"
      using lt d key by simp
    moreover have "\<forall>y \<in> set post. the (BufferedIntention.created_at y) \<le> the (BufferedIntention.created_at latest)"
      using le d key by simp
    ultimately show ?thesis using True no fields d in_g
      by (intro bexI[of _ latest]) auto
  next
    case False
    then have yes: "\<exists>a \<in> set g. BufferedIntention.intention_type a = APPOINTMENT"
      by (auto simp: filter_empty_conv)
    from False have "last ?apps \<in> set ?apps" by (rule last_in_set)
    then have "last ?apps \<in> set g" by simp
    then show ?thesis using False yes fields
      by (intro bexI[of _ "last ?apps"]) auto
  qed
qed

section \<open>Properties of the aggregator\<close>



text \<open>
  C4. On records with non-empty identity keys, whenever the aggregator returns, the result
  holds exactly one contact per distinct normalized key of the input (its keys are
  pairwise different, they are exactly the normalized keys of the input, and so the
  number of contacts is the number of distinct keys), and the two counts of a contact are
  the numbers of input records of its key of kind intention and of kind appointment. The
  aggregator does return when every record carries its creation timestamp, as every
  record read from the buffer does; and the empty input gives the empty output.
\<close>

theorem aggregate_grouping:
  assumes "\<forall>r \<in> set rs. BufferedIntention.email r \<noteq> []"
  shows "(\<forall>cs. aggregate_intentions rs = Inr cs \<longrightarrow>
            distinct (map ProcessedContact.email cs) \<and>
            set (map ProcessedContact.email cs) =
              (\<lambda>r. normalize_email (BufferedIntention.email r)) ` set rs \<and>
            length cs = card ((\<lambda>r. normalize_email (BufferedIntention.email r)) ` set rs) \<and>
            (\<forall>c \<in> set cs.
               ProcessedContact.intention_count c =
                 int (length [r \<leftarrow> rs. normalize_email (BufferedIntention.email r) = ProcessedContact.email c
                                     \<and> BufferedIntention.intention_type r = INTENTION]) \<and>
               ProcessedContact.appointment_count c =
                 int (length [r \<leftarrow> rs. normalize_email (BufferedIntention.email r) = ProcessedContact.email c
                                     \<and> BufferedIntention.intention_type r = APPOINTMENT])))
         \<and> ((\<forall>r \<in> set rs. BufferedIntention.created_at r \<noteq> None) \<longrightarrow>
              (\<exists>cs. aggregate_intentions rs = Inr cs))
         \<and> aggregate_intentions [] = Inr []"
proof (intro conjI allI impI)
  fix cs assume run: "aggregate_intentions rs = Inr cs"
  have keys: "map ProcessedContact.email cs = map fst (group_by_email rs [])"
    by (rule aggregate_emails[OF run])
  show d: "distinct (map ProcessedContact.email cs)"
    by (simp add: keys distinct_group_by_email)
  have "set (map fst (group_by_email rs [])) =
          {normalize_email (BufferedIntention.email r) | r. r \<in> set rs \<and> BufferedIntention.email r \<noteq> []}"
    using keys_group_by_email[of rs "[]"] by simp
  also have "\<dots> = (\<lambda>r. normalize_email (BufferedIntention.email r)) ` set rs"
    using assms by auto
  finally show s: "set (map ProcessedContact.email cs) =
              (\<lambda>r. normalize_email (BufferedIntention.email r)) ` set rs"
    by (simp add: keys)
  show "length cs = card ((\<lambda>r. normalize_email (BufferedIntention.email r)) ` set rs)"
    using distinct_card[OF d] s by simp
  show "\<forall>c \<in> set cs.
               ProcessedContact.intention_count c =
                 int (length [r \<leftarrow> rs. normalize_email (BufferedIntention.email r) = ProcessedContact.email c
                                     \<and> BufferedIntention.intention_type r = INTENTION]) \<and>
               ProcessedContact.appointment_count c =
                 int (length [r \<leftarrow> rs. normalize_email (BufferedIntention.email r) = ProcessedContact.email c
                                     \<and> BufferedIntention.intention_type r = APPOINTMENT])"
  proof
    fix c assume "c \<in> set cs"
    from aggregate_member[OF run this]
    have b: "build_contact (ProcessedContact.email c) (group_of (ProcessedContact.email c) rs) = Inr c"
      by simp
    have g: "[r \<leftarrow> group_of k rs. BufferedIntention.intention_type r = ty] =
             [r \<leftarrow> rs. normalize_email (BufferedIntention.email r) = k \<and> BufferedIntention.intention_type r = ty]" for k ty
      using assms by (auto simp: group_of_def intro: filter_cong)
    from build_contact_counts[OF b] show
      "ProcessedContact.intention_count c =
                 int (length [r \<leftarrow> rs. normalize_email (BufferedIntention.email r) = ProcessedContact.email c
                                     \<and> BufferedIntention.intention_type r = INTENTION]) \<and>
               ProcessedContact.appointment_count c =
                 int (length [r \<leftarrow> rs. normalize_email (BufferedIntention.email r) = ProcessedContact.email c
                                     \<and> BufferedIntention.intention_type r = APPOINTMENT])"
      by (simp add: g)
  qed
next
  assume "\<forall>r \<in> set rs. BufferedIntention.created_at r \<noteq> None"
  then show "\<exists>cs. aggregate_intentions rs = Inr cs" by (rule aggregate_total)
next
  show "aggregate_intentions [] = Inr []" by (simp add: aggregate_intentions_def)
qed

theorem aggregate_grouping_witness:
  "\<exists>c. aggregate_intentions scenario = Inr [c] \<and> ProcessedContact.email c = ''a@x.com'' \<and>
       ProcessedContact.intention_count c = 1 \<and> ProcessedContact.appointment_count c = 1"
proof -
  have ne: "\<forall>r \<in> set scenario. BufferedIntention.email r \<noteq> []"
    by code_simp
  have st: "\<forall>r \<in> set scenario. BufferedIntention.created_at r \<noteq> None"
    by code_simp
  note g = aggregate_grouping[OF ne]
  from g st obtain cs where run: "aggregate_intentions scenario = Inr cs"
    by blast
  have img: "(\<lambda>r. normalize_email (BufferedIntention.email r)) ` set scenario = {''a@x.com''}"
  proof -
    have "map (\<lambda>r. normalize_email (BufferedIntention.email r)) scenario = [''a@x.com'', ''a@x.com'']"
      by code_simp
    then have "set (map (\<lambda>r. normalize_email (BufferedIntention.email r)) scenario) = {''a@x.com''}"
      by simp
    then show ?thesis by simp
  qed
  from g run img have len: "length cs = 1" and em: "set (map ProcessedContact.email cs) = {''a@x.com''}"
    by auto
  from len obtain c where cs: "cs = [c]"
    by (cases cs) auto
  with em have e: "ProcessedContact.email c = ''a@x.com''" by simp
  have n1: "int (length [r \<leftarrow> scenario. normalize_email (BufferedIntention.email r) = ''a@x.com''
                                     \<and> BufferedIntention.intention_type r = INTENTION]) = 1"
    by code_simp
  have n2: "int (length [r \<leftarrow> scenario. normalize_email (BufferedIntention.email r) = ''a@x.com''
                                     \<and> BufferedIntention.intention_type r = APPOINTMENT]) = 1"
    by code_simp
  from g run cs e n1 n2 have "ProcessedContact.intention_count c = 1 \<and> ProcessedContact.appointment_count c = 1"
    by auto
  with run cs e show ?thesis by blast
qed

text \<open>
  C10. Records whose identity key is the empty string take no part in the aggregation:
  the aggregator gives the same result, or raises the same error, as on the input without
  them, so they add no contact, no count and no error; and an input made of such records
  only gives the empty output. (The field is declared \<open>str\<close>, so a missing key is not a
  value of the type.)
\<close>

theorem aggregate_skips_empty_email:
  "aggregate_intentions rs = aggregate_intentions [r \<leftarrow> rs. BufferedIntention.email r \<noteq> []]
   \<and> ((\<forall>r \<in> set rs. BufferedIntention.email r = []) \<longrightarrow> aggregate_intentions rs = Inr [])"
proof
  show "aggregate_intentions rs = aggregate_intentions [r \<leftarrow> rs. BufferedIntention.email r \<noteq> []]"
  proof (cases "[r \<leftarrow> rs. BufferedIntention.email r \<noteq> []] = []")
    case True
    then have "\<forall>r \<in> set rs. BufferedIntention.email r = []"
      by (simp add: filter_empty_conv)
    then have "group_by_email rs [] = []"
      by (rule group_by_email_all_empty)
    with True show ?thesis
      by (simp add: aggregate_intentions_def)
  next
    case False
    then have "rs \<noteq> []" by auto
    with False show ?thesis
      by (simp add: aggregate_intentions_def group_by_email_filter)
  qed
  show "(\<forall>r \<in> set rs. BufferedIntention.email r = []) \<longrightarrow> aggregate_intentions rs = Inr []"
    by (simp add: aggregate_intentions_def group_by_email_all_empty)
qed

theorem aggregate_skips_empty_email_witness:
  "aggregate_intentions [new_intention [] INTENTION, new_intention [] APPOINTMENT] = Inr []"
proof -
  have "\<forall>r \<in> set [new_intention [] INTENTION, new_intention [] APPOINTMENT].
          BufferedIntention.email r = []"
    by (simp add: new_intention_def)
  with aggregate_skips_empty_email[of "[new_intention [] INTENTION, new_intention [] APPOINTMENT]"]
  show ?thesis by blast
qed




text \<open>
  C6. Two intentions of one customer with the same creation timestamp and no appointment:
  the name is taken from the second record, but the business-context fields (here the
  treatment) are taken from the first one, because \<open>max\<close> keeps the first of several
  maximal items (\<open>detail_record_source\<close> is the general statement). The specification
  breaks such a tie in favour of the record that appears later.
\<close>

theorem same_second_takes_first:
  "map_sum id (map (\<lambda>c. (ProcessedContact.first_name c, ProcessedContact.treatment c)))
     (aggregate_intentions same_second) = Inr [(Some ''Kimberly'', Some ''cut'')]"
  by code_simp

section \<open>Properties of the outbound client\<close>

text \<open>
  C2. Let the client's header values be ASCII. Against a downstream that answers every
  request with 429, one call of \<open>_request\<close> sends exactly \<open>MAX_RETRIES\<close> requests,
  sleeping 1, 2 and 4 seconds, and then returns \<open>None\<close> without raising. So
  \<open>process_contact\<close> reports success: the profile import yields no profile id, the list
  step is skipped, and in extended mode the event call spends another \<open>MAX_RETRIES\<close>
  requests in the same way. The specification has such a call fail once the attempts are
  exhausted.
\<close>

theorem rate_limited_reported_as_success:
  assumes "headers_encodable self"
  shows "request' self rate_limited req w =
           Some (Inr JNull, w\<lparr>requests_sent := requests_sent w + MAX_RETRIES,
                               sleeps := sleeps w @ [1, 2, 4]\<rparr>)
         \<and> (\<exists>w'. process_contact self rate_limited contact w = Some (Inr True, w') \<and>
                 requests_sent w' =
                   requests_sent w + (if mode self = EXTENDED then 2 * MAX_RETRIES else MAX_RETRIES))"
  using assms
  by (simp add: request_rate_limited process_contact_def steps_def upsert_profile_def
        create_event_def MAX_RETRIES_def)

theorem rate_limited_reported_as_success_witness:
  "headers_encodable simple_client
   \<and> (\<exists>w'. process_contact simple_client rate_limited kim idle = Some (Inr True, w') \<and>
           requests_sent w' = 3)"
proof -
  have h: "headers_encodable simple_client"
    by code_simp
  have "mode simple_client \<noteq> EXTENDED" "requests_sent idle = 0"
    by (simp_all add: simple_client_def idle_def)
  with rate_limited_reported_as_success[OF h, of _ idle kim] h show ?thesis
    by (simp add: MAX_RETRIES_def)
qed



section \<open>Properties of the buffer store\<close>

text \<open>
  C8. Marking the same ids twice leaves the table, and ends, as marking them once does;
  marking no ids returns the database as it was, without a write. After any call the
  table has the same rows in the same places: a row whose id is not listed is the old
  one, and a row whose id is listed differs from the old one at most in its processed
  flag, which is set when the engine accepts the statement. When the list is longer than
  the engine allows parameters, the call raises \<open>OperationalError\<close> and every row is the
  old one.
\<close>

theorem mark_as_processed_idempotent:
  "intentions (snd (mark_as_processed ids (snd (mark_as_processed ids store)))) =
     intentions (snd (mark_as_processed ids store))
   \<and> fst (mark_as_processed ids (snd (mark_as_processed ids store))) =
       fst (mark_as_processed ids store)
   \<and> mark_as_processed [] store = (Inr (), store)
   \<and> fst (mark_as_processed ids store) =
       (if max_variables store < length ids then Inl OperationalError else Inr ())
   \<and> length (intentions (snd (mark_as_processed ids store))) = length (intentions store)
   \<and> (\<forall>i < length (intentions store).
        (Row.id' (intentions store ! i) \<in> set ids \<longrightarrow>
           intentions (snd (mark_as_processed ids store)) ! i =
             (if max_variables store < length ids then intentions store ! i
              else (intentions store ! i)\<lparr>Row.processed := True\<rparr>)) \<and>
        (Row.id' (intentions store ! i) \<notin> set ids \<longrightarrow>
           intentions (snd (mark_as_processed ids store)) ! i = intentions store ! i))"
proof (intro conjI)
  show "intentions (snd (mark_as_processed ids (snd (mark_as_processed ids store)))) =
     intentions (snd (mark_as_processed ids store))"
    by (simp add: mark_as_processed_rows mark_as_processed_limit)
  show "fst (mark_as_processed ids (snd (mark_as_processed ids store))) =
       fst (mark_as_processed ids store)"
    by (simp add: mark_as_processed_outcome mark_as_processed_limit)
  show "mark_as_processed [] store = (Inr (), store)"
    by (simp add: mark_as_processed_def)
  show "fst (mark_as_processed ids store) =
       (if max_variables store < length ids then Inl OperationalError else Inr ())"
    by (rule mark_as_processed_outcome)
  show "length (intentions (snd (mark_as_processed ids store))) = length (intentions store)"
    by (simp add: mark_as_processed_rows)
  show "\<forall>i < length (intentions store).
        (Row.id' (intentions store ! i) \<in> set ids \<longrightarrow>
           intentions (snd (mark_as_processed ids store)) ! i =
             (if max_variables store < length ids then intentions store ! i
              else (intentions store ! i)\<lparr>Row.processed := True\<rparr>)) \<and>
        (Row.id' (intentions store ! i) \<notin> set ids \<longrightarrow>
           intentions (snd (mark_as_processed ids store)) ! i = intentions store ! i)"
    by (simp add: mark_as_processed_rows)
qed

theorem mark_as_processed_idempotent_witness:
  "map (\<lambda>row. (Row.id' row, Row.processed row)) (intentions (snd (mark_as_processed [2] buffered)))
     = [(1, False), (2, True)]
   \<and> intentions (snd (mark_as_processed [2] buffered)) ! 0 = intentions buffered ! 0
   \<and> intentions (snd (mark_as_processed [2] buffered)) ! 1 =
       (intentions buffered ! 1)\<lparr>Row.processed := True\<rparr>
   \<and> intentions (snd (mark_as_processed [2] (snd (mark_as_processed [2] buffered)))) =
       intentions (snd (mark_as_processed [2] buffered))
   \<and> fst (mark_as_processed [1, 2] (db cramped)) = Inl OperationalError
   \<and> intentions (snd (mark_as_processed [1, 2] (db cramped))) ! 1 = intentions (db cramped) ! 1"
proof -
  have len: "length (intentions buffered) = 2" "length (intentions (db cramped)) = 2"
    by (simp_all add: buffered_def cramped_def save_intention_def)
  have ids: "Row.id' (intentions buffered ! 0) \<notin> set [2]" "Row.id' (intentions buffered ! 1) \<in> set [2]"
    "Row.id' (intentions (db cramped) ! 1) \<in> set [1, 2]"
    by (simp_all add: buffered_def cramped_def save_intention_def)
  have lim: "\<not> max_variables buffered < length [2::int]"
    "max_variables (db cramped) < length [1, 2::int]"
    by (simp_all add: buffered_def cramped_def save_intention_def)
  note t = mark_as_processed_idempotent[of "[2]" buffered]
  note t' = mark_as_processed_idempotent[of "[1, 2]" "db cramped"]
  from t len ids lim have r0: "intentions (snd (mark_as_processed [2] buffered)) ! 0 = intentions buffered ! 0"
    by simp
  from t len ids lim have r1: "intentions (snd (mark_as_processed [2] buffered)) ! 1 =
       (intentions buffered ! 1)\<lparr>Row.processed := True\<rparr>"
    by simp
  from t' lim have e: "fst (mark_as_processed [1, 2] (db cramped)) = Inl OperationalError"
    by simp
  from t' have a: "i < length (intentions (db cramped)) \<Longrightarrow>
        Row.id' (intentions (db cramped) ! i) \<in> set [1, 2] \<Longrightarrow>
        intentions (snd (mark_as_processed [1, 2] (db cramped))) ! i =
          (if max_variables (db cramped) < length [1, 2::int] then intentions (db cramped) ! i
           else (intentions (db cramped) ! i)\<lparr>Row.processed := True\<rparr>)" for i
    by blast
  have r1': "intentions (snd (mark_as_processed [1, 2] (db cramped))) ! 1 =
       intentions (db cramped) ! 1"
    using a[of 1] len(2) ids(3) lim(2) by simp
  have "map (\<lambda>row. (Row.id' row, Row.processed row)) (intentions (snd (mark_as_processed [2] buffered)))
     = [(1, False), (2, True)]"
    by code_simp
  with t r0 r1 e r1' show ?thesis by simp
qed

section \<open>Properties of the orchestrator\<close>

text \<open>
  C1. When a run fetches more records than the engine allows parameters in one statement,
  \<open>run_daily_sync\<close> forwards every contact and then raises \<open>OperationalError\<close> from
  \<open>mark_as_processed\<close>: no record is marked, and a query for the unprocessed records of
  the target date still returns them. The specification has every fetched record marked
  whatever happens downstream; \<open>run_daily_sync_drains_within_limit\<close> shows that the code
  does so when the fetched records fit into one statement and no wait is infinite.
\<close>

theorem run_daily_sync_too_many_ids:
  assumes fw: "finite_waits srv"
    and many: "max_variables (db W) <
               length (get_unprocessed_intentions
                 (Some (case target_date of None \<Rightarrow> today - 1 | Some d \<Rightarrow> d)) (db W))"
  shows "\<exists>w'. run_daily_sync self srv today target_date W =
                 Some (Inl OperationalError, W\<lparr>net := w'\<rparr>) \<and>
              get_unprocessed_intentions
                (Some (case target_date of None \<Rightarrow> today - 1 | Some d \<Rightarrow> d))
                (db (W\<lparr>net := w'\<rparr>)) \<noteq> []"
proof -
  let ?d = "case target_date of None \<Rightarrow> today - 1 | Some d \<Rightarrow> d"
  let ?rows = "sort_key Row.created_at
                 [row \<leftarrow> intentions (db W). \<not> Row.processed row \<and> date_of (Row.created_at row) = ?d]"
  let ?fetched = "get_unprocessed_intentions (Some ?d) (db W)"
  let ?ids = "map Row.id' ?rows"
  have fetched: "?fetched = map row_to_intention ?rows"
    by (simp add: get_unprocessed_intentions_def)
  from many have ne: "?fetched \<noteq> []" by auto
  obtain contacts where agg: "aggregate_intentions ?fetched = Inr contacts"
    using aggregate_total[OF fetched_stamped] by blast
  obtain s f w' where fwd: "forward_all self srv contacts 0 0 (net W) = Some (Inr (s, f), w')"
    using forward_all_returns[OF fw] by blast
  have ids: "concat (map (\<lambda>i. case BufferedIntention.id' i of None \<Rightarrow> [] | Some n \<Rightarrow> [n]) ?fetched) = ?ids"
    unfolding fetched by (rule fetched_ids)
  have lt: "max_variables (db W) < length ?ids"
    using many unfolding fetched by simp
  then have "?ids \<noteq> []"
    by (metis less_nat_zero_code list.size(3))
  with lt have mk: "mark_as_processed ?ids (db W) = (Inl OperationalError, db W)"
    by (simp add: mark_as_processed_def)
  have "\<lparr> db = db W, net = w' \<rparr> = W\<lparr>net := w'\<rparr>"
    by (cases W) simp
  then have "run_daily_sync self srv today target_date W =
               Some (Inl OperationalError, W\<lparr>net := w'\<rparr>)"
    unfolding run_daily_sync_def Let_def ids using ne agg fwd mk by simp
  with ne show ?thesis by (intro exI[of _ w']) simp
qed

theorem run_daily_sync_too_many_ids_witness:
  "finite_waits unreachable
   \<and> max_variables (db cramped) < length (get_unprocessed_intentions (Some 0) (db cramped))
   \<and> (\<exists>w'. run_daily_sync extended_client unreachable 1 None cramped =
              Some (Inl OperationalError, cramped\<lparr>net := w'\<rparr>) \<and>
            map BufferedIntention.id' (get_unprocessed_intentions (Some 0) (db (cramped\<lparr>net := w'\<rparr>)))
              = [Some 1, Some 2])"
proof -
  have fw: "finite_waits unreachable"
    by (simp add: finite_waits_def unreachable_def)
  have len: "length (get_unprocessed_intentions (Some 0) (db cramped)) = 2"
    by code_simp
  have lim: "max_variables (db cramped) = 1"
    by (simp add: cramped_def)
  have f: "map BufferedIntention.id' (get_unprocessed_intentions (Some 0) (db cramped)) = [Some 1, Some 2]"
    by code_simp
  have many: "max_variables (db cramped) <
               length (get_unprocessed_intentions
                 (Some (case None of None \<Rightarrow> 1 - 1 | Some d \<Rightarrow> d)) (db cramped))"
    using len lim by simp
  from run_daily_sync_too_many_ids[OF fw many, of extended_client]
  obtain w' where "run_daily_sync extended_client unreachable 1 None cramped =
                     Some (Inl OperationalError, cramped\<lparr>net := w'\<rparr>)"
    by auto
  with f have "\<exists>w'. run_daily_sync extended_client unreachable 1 None cramped =
              Some (Inl OperationalError, cramped\<lparr>net := w'\<rparr>) \<and>
            map BufferedIntention.id' (get_unprocessed_intentions (Some 0) (db (cramped\<lparr>net := w'\<rparr>)))
              = [Some 1, Some 2]"
    by (intro exI[of _ w']) simp
  with fw len lim show ?thesis by simp
qed


text \<open>
  C9. When no unprocessed record exists for the target date, \<open>run_daily_sync\<close> returns
  the result with all four counts zero and leaves the world as it was: no request has
  been sent and nothing has been written to the buffer.
\<close>

theorem run_daily_sync_empty_day:
  assumes "get_unprocessed_intentions
             (Some (case target_date of None \<Rightarrow> today - 1 | Some d \<Rightarrow> d)) (db W) = []"
  shows "run_daily_sync self srv today target_date W =
           Some (Inr \<lparr> date = (case target_date of None \<Rightarrow> today - 1 | Some d \<Rightarrow> d),
                        intentions_found = 0, contacts_processed = 0, success = 0, failed = 0 \<rparr>,
                 W)"
  using assms by (simp add: run_daily_sync_def)

theorem run_daily_sync_empty_day_witness:
  "get_unprocessed_intentions (Some 7) (db start) = []
   \<and> run_daily_sync extended_client accepting 8 None start =
       Some (Inr \<lparr> date = 7, intentions_found = 0, contacts_processed = 0, success = 0, failed = 0 \<rparr>,
             start)
   \<and> requests_sent (net start) = 0 \<and> commits (db start) = 2"
proof -
  have e: "get_unprocessed_intentions (Some (case None of None \<Rightarrow> 8 - 1 | Some d \<Rightarrow> d)) (db start) = []"
    by code_simp
  have e': "get_unprocessed_intentions (Some 7) (db start) = []"
    by code_simp
  have c: "requests_sent (net start) = 0 \<and> commits (db start) = 2"
    by code_simp
  from run_daily_sync_empty_day[OF e, of extended_client accepting] e' c
  show ?thesis by simp
qed

end
